theory Spec2Isabelle
  imports Complex_Main
begin

section \<open>JavaScript numbers\<close>

text \<open>
  The engine of \<^verbatim>\<open>frontend/src/App.js\<close> computes on JavaScript numbers. A number is
  modelled as a finite value, one of the two infinities, or NaN. Finite values are exact
  reals: rounding, overflow of finite arithmetic and the sign of zero are not modelled
  (a zero divisor is taken as \<open>+0\<close>). Everything else follows the language: NaN
  propagates, \<open>0/0\<close> and \<open>Infinity - Infinity\<close> are NaN, every comparison with NaN is
  false, and reading an array out of range gives \<open>undefined\<close> (\<open>None\<close>), which
  arithmetic converts to NaN.
\<close>

datatype jsnum = Fin real | PInf | NInf | NaN

fun js_neg :: "jsnum \<Rightarrow> jsnum" where
  "js_neg (Fin x) = Fin (- x)"
| "js_neg PInf = NInf"
| "js_neg NInf = PInf"
| "js_neg NaN = NaN"

fun js_add :: "jsnum \<Rightarrow> jsnum \<Rightarrow> jsnum" where
  "js_add NaN b = NaN"
| "js_add a NaN = NaN"
| "js_add (Fin x) (Fin y) = Fin (x + y)"
| "js_add PInf NInf = NaN"
| "js_add NInf PInf = NaN"
| "js_add PInf b = PInf"
| "js_add a PInf = PInf"
| "js_add NInf b = NInf"
| "js_add a NInf = NInf"

definition js_sub :: "jsnum \<Rightarrow> jsnum \<Rightarrow> jsnum" where
  "js_sub a b = js_add a (js_neg b)"

text \<open>The sign of a number that is not NaN, and the infinity of a given sign.\<close>

fun js_sgn :: "jsnum \<Rightarrow> real" where
  "js_sgn (Fin x) = sgn x"
| "js_sgn PInf = 1"
| "js_sgn NInf = - 1"
| "js_sgn NaN = 0"

definition inf_of_sign :: "real \<Rightarrow> jsnum" where
  "inf_of_sign s = (if 0 < s then PInf else if s < 0 then NInf else NaN)"

fun js_mul :: "jsnum \<Rightarrow> jsnum \<Rightarrow> jsnum" where
  "js_mul NaN b = NaN"
| "js_mul a NaN = NaN"
| "js_mul (Fin x) (Fin y) = Fin (x * y)"
| "js_mul a b = inf_of_sign (js_sgn a * js_sgn b)"

fun js_div :: "jsnum \<Rightarrow> jsnum \<Rightarrow> jsnum" where
  "js_div NaN b = NaN"
| "js_div a NaN = NaN"
| "js_div (Fin x) (Fin y) = (if y = 0 then inf_of_sign (sgn x) else Fin (x / y))"
| "js_div (Fin x) b = Fin 0"
| "js_div a (Fin y) = inf_of_sign (js_sgn a * (if y < 0 then - 1 else 1))"
| "js_div a b = NaN"

fun js_lt :: "jsnum \<Rightarrow> jsnum \<Rightarrow> bool" where
  "js_lt NaN b = False"
| "js_lt a NaN = False"
| "js_lt (Fin x) (Fin y) = (x < y)"
| "js_lt a NInf = False"
| "js_lt NInf b = True"
| "js_lt PInf b = False"
| "js_lt a PInf = True"

definition js_gt :: "jsnum \<Rightarrow> jsnum \<Rightarrow> bool" where
  "js_gt a b = js_lt b a"

definition js_le :: "jsnum \<Rightarrow> jsnum \<Rightarrow> bool" where
  "js_le a b = (a \<noteq> NaN \<and> b \<noteq> NaN \<and> (js_lt a b \<or> a = b))"

text \<open>\<^verbatim>\<open>Math.max\<close> and \<^verbatim>\<open>Math.min\<close> of two numbers, and \<^verbatim>\<open>Math.min(...xs)\<close> of a spread
  array: \<open>+Infinity\<close> for no argument, NaN as soon as one argument is NaN.\<close>

definition js_max :: "jsnum \<Rightarrow> jsnum \<Rightarrow> jsnum" where
  "js_max a b = (if a = NaN \<or> b = NaN then NaN else if js_lt a b then b else a)"

definition js_min :: "jsnum \<Rightarrow> jsnum \<Rightarrow> jsnum" where
  "js_min a b = (if a = NaN \<or> b = NaN then NaN else if js_lt b a then b else a)"

fun js_min_list :: "jsnum list \<Rightarrow> jsnum" where
  "js_min_list [] = PInf"
| "js_min_list (x # xs) = js_min x (js_min_list xs)"

fun js_abs :: "jsnum \<Rightarrow> jsnum" where
  "js_abs (Fin x) = Fin \<bar>x\<bar>"
| "js_abs PInf = PInf"
| "js_abs NInf = PInf"
| "js_abs NaN = NaN"

fun js_sqrt :: "jsnum \<Rightarrow> jsnum" where
  "js_sqrt (Fin x) = (if x < 0 then NaN else Fin (sqrt x))"
| "js_sqrt PInf = PInf"
| "js_sqrt NInf = NaN"
| "js_sqrt NaN = NaN"

fun js_exp :: "jsnum \<Rightarrow> jsnum" where
  "js_exp (Fin x) = Fin (exp x)"
| "js_exp PInf = PInf"
| "js_exp NInf = Fin 0"
| "js_exp NaN = NaN"

fun js_log :: "jsnum \<Rightarrow> jsnum" where
  "js_log (Fin x) = (if x < 0 then NaN else if x = 0 then NInf else Fin (ln x))"
| "js_log PInf = PInf"
| "js_log NInf = NaN"
| "js_log NaN = NaN"

text \<open>Array reads, \<open>undefined\<close> as \<open>None\<close>; the conversion of a value to a number;
  truthiness (\<open>undefined\<close>, \<open>0\<close> and NaN are falsy); and \<^verbatim>\<open>a || b\<close>.\<close>

definition js_index :: "jsnum list \<Rightarrow> nat \<Rightarrow> jsnum option" where
  "js_index xs i = (if i < length xs then Some (xs ! i) else None)"

fun to_number :: "jsnum option \<Rightarrow> jsnum" where
  "to_number None = NaN"
| "to_number (Some x) = x"

fun truthy :: "jsnum option \<Rightarrow> bool" where
  "truthy None = False"
| "truthy (Some x) = (x \<noteq> NaN \<and> x \<noteq> Fin 0)"

definition js_or :: "jsnum option \<Rightarrow> jsnum option \<Rightarrow> jsnum option" where
  "js_or a b = (if truthy a then a else b)"

text \<open>The left-to-right sum of a sequence of numbers, starting from \<open>0\<close>.\<close>

definition js_sum :: "jsnum list \<Rightarrow> jsnum" where
  "js_sum xs = foldl js_add (Fin 0) xs"

section \<open>The covered-call backtest\<close>

text \<open>
  One entry of \<^verbatim>\<open>results\<close>. The source's \<^verbatim>\<open>date\<close> is the ISO date of
  \<^verbatim>\<open>new Date(2023, 0, i + 1)\<close>; the model keeps the day number \<open>i + 1\<close> handed to the
  constructor. \<^verbatim>\<open>stockPrice\<close> is the exit price, which may be \<open>undefined\<close>.
\<close>

record trade =
  date :: nat
  stockPrice :: "jsnum option"
  pnl :: jsnum
  cumulativePnL :: jsnum

text \<open>The loop's variables \<^verbatim>\<open>results\<close>, \<^verbatim>\<open>totalPnL\<close>, \<^verbatim>\<open>winningTrades\<close> and
  \<^verbatim>\<open>totalTrades\<close>.\<close>

record bt_state =
  st_results :: "trade list"
  st_totalPnL :: jsnum
  st_winningTrades :: nat
  st_totalTrades :: nat

record report =
  trades :: "trade list"
  totalPnL :: jsnum
  winningTrades :: nat
  totalTrades :: nat
  winRate :: jsnum
  avgPnL :: jsnum
  maxDrawdown :: jsnum
  finalReturn :: jsnum

text \<open>\<^verbatim>\<open>prices[i + 29] || prices[prices.length - 1]\<close>. For the empty array the source's
  second index is \<open>-1\<close> and the model's is \<open>0\<close>; both reads are \<open>undefined\<close>.\<close>

definition exitPriceFallback :: "jsnum list \<Rightarrow> nat \<Rightarrow> bool" where
  "exitPriceFallback prices i = (\<not> truthy (js_index prices (i + 29)))"

definition exitPriceAt :: "jsnum list \<Rightarrow> nat \<Rightarrow> jsnum option" where
  "exitPriceAt prices i =
     js_or (js_index prices (i + 29)) (js_index prices (length prices - 1))"

text \<open>The body of the loop at index \<open>i\<close>.\<close>

definition period_step ::
  "jsnum list \<Rightarrow> jsnum \<Rightarrow> jsnum \<Rightarrow> jsnum \<Rightarrow> nat \<Rightarrow> bt_state \<Rightarrow> bt_state" where
  "period_step prices strike premium quantity i st =
     (let entryPrice = to_number (js_index prices i);
          exitPrice = to_number (exitPriceAt prices i);
          stockPnL = js_mul (js_mul (js_sub exitPrice entryPrice) quantity) (Fin 100);
          optionPnL =
            (if js_gt exitPrice strike
             then js_add (js_mul (js_mul (js_neg (js_sub exitPrice strike)) quantity) (Fin 100))
                         (js_mul (js_mul premium quantity) (Fin 100))
             else js_mul (js_mul premium quantity) (Fin 100));
          totalTradePnL = js_add stockPnL optionPnL;
          total = js_add (st_totalPnL st) totalTradePnL
      in \<lparr> st_results = st_results st @
             [\<lparr> date = i + 1, stockPrice = exitPriceAt prices i,
                pnl = totalTradePnL, cumulativePnL = total \<rparr>],
           st_totalPnL = total,
           st_winningTrades =
             (if js_gt totalTradePnL (Fin 0) then st_winningTrades st + 1
              else st_winningTrades st),
           st_totalTrades = st_totalTrades st + 1 \<rparr>)"

text \<open>\<^verbatim>\<open>for (let i = 0; i < prices.length - 30; i += 30)\<close>: the bound is an integer that is
  negative for a short array.\<close>

function backtest_loop ::
  "jsnum list \<Rightarrow> jsnum \<Rightarrow> jsnum \<Rightarrow> jsnum \<Rightarrow> nat \<Rightarrow> bt_state \<Rightarrow> bt_state" where
  "backtest_loop prices strike premium quantity i st =
     (if int i < int (length prices) - 30
      then backtest_loop prices strike premium quantity (i + 30)
             (period_step prices strike premium quantity i st)
      else st)"
  by pat_completeness auto
termination
  by (relation "measure (\<lambda>(prices, strike, premium, quantity, i, st). length prices - i)") auto

text \<open>\<^verbatim>\<open>strategyInputs.initialCapital\<close> is component state read by the function; it is the
  first parameter here.\<close>

definition runCoveredCallBacktest ::
  "jsnum \<Rightarrow> jsnum list \<Rightarrow> jsnum \<Rightarrow> jsnum \<Rightarrow> jsnum \<Rightarrow> report" where
  "runCoveredCallBacktest initialCapital prices strike premium quantity =
     (let st = backtest_loop prices strike premium quantity 0
                 \<lparr> st_results = [], st_totalPnL = Fin 0,
                   st_winningTrades = 0, st_totalTrades = 0 \<rparr>
      in \<lparr> trades = st_results st,
           totalPnL = st_totalPnL st,
           winningTrades = st_winningTrades st,
           totalTrades = st_totalTrades st,
           winRate = js_mul (js_div (Fin (real (st_winningTrades st)))
                                    (Fin (real (st_totalTrades st)))) (Fin 100),
           avgPnL = js_div (st_totalPnL st) (Fin (real (st_totalTrades st))),
           maxDrawdown = js_min_list (map cumulativePnL (st_results st)),
           finalReturn = js_mul (js_div (st_totalPnL st) initialCapital) (Fin 100) \<rparr>)"

text \<open>The indices that the loop visits from \<open>i\<close> on, in order.\<close>

function loop_indices :: "nat \<Rightarrow> nat \<Rightarrow> nat list" where
  "loop_indices n i =
     (if int i < int n - 30 then i # loop_indices n (i + 30) else [])"
  by pat_completeness auto
termination
  by (relation "measure (\<lambda>(n, i). n - i)") auto

text \<open>The profit of one period, as the loop's body computes it from the entry price, the
  exit price and the contract.\<close>

definition tradePnL :: "jsnum \<Rightarrow> jsnum \<Rightarrow> jsnum \<Rightarrow> jsnum \<Rightarrow> jsnum \<Rightarrow> jsnum" where
  "tradePnL entryPrice exitPrice strike premium quantity =
     js_add (js_mul (js_mul (js_sub exitPrice entryPrice) quantity) (Fin 100))
       (if js_gt exitPrice strike
        then js_add (js_mul (js_mul (js_neg (js_sub exitPrice strike)) quantity) (Fin 100))
                    (js_mul (js_mul premium quantity) (Fin 100))
        else js_mul (js_mul premium quantity) (Fin 100))"

text \<open>What the loop maintains: the counters count the records, the running total is the
  sum of the recorded profits, and each record carries the sum up to itself.\<close>

definition bt_inv :: "bt_state \<Rightarrow> bool" where
  "bt_inv st =
     (st_totalTrades st = length (st_results st) \<and>
      st_winningTrades st = length (filter (\<lambda>t. js_gt (pnl t) (Fin 0)) (st_results st)) \<and>
      st_totalPnL st = js_sum (map pnl (st_results st)) \<and>
      (\<forall>i < length (st_results st).
         cumulativePnL (st_results st ! i) = js_sum (map pnl (take (Suc i) (st_results st)))))"

section \<open>The price path generator\<close>

text \<open>
  \<^verbatim>\<open>generateMockPriceData\<close> calls \<^verbatim>\<open>Math.random()\<close> once in every iteration. The
  global source is made explicit: \<open>rnd k\<close> is the value that the \<open>k\<close>-th call of the run
  returns (counting from \<open>0\<close>), so the iteration with index \<open>i\<close> reads \<open>rnd (i - 1)\<close>.
  The number of days is a natural number (the caller passes \<open>365\<close>).
\<close>

record price_data =
  prices :: "jsnum list"
  returns :: "jsnum list"

definition randomReturn :: "real \<Rightarrow> jsnum \<Rightarrow> jsnum" where
  "randomReturn r volatility = js_mul (js_mul (js_sub (Fin r) (Fin 0.5)) volatility) (Fin 2)"

function gen_loop :: "(nat \<Rightarrow> real) \<Rightarrow> jsnum \<Rightarrow> nat \<Rightarrow> nat \<Rightarrow> price_data \<Rightarrow> price_data" where
  "gen_loop rnd volatility days i d =
     (if i < days
      then (let ret = randomReturn (rnd (i - 1)) volatility;
                newPrice = js_mul (to_number (js_index (prices d) (i - 1))) (js_add (Fin 1) ret)
            in gen_loop rnd volatility days (i + 1)
                 \<lparr> prices = prices d @ [js_max newPrice (Fin 1)],
                   returns = returns d @ [ret] \<rparr>)
      else d)"
  by pat_completeness auto
termination
  by (relation "measure (\<lambda>(rnd, volatility, days, i, d). days - i)") auto

definition generateMockPriceData ::
  "(nat \<Rightarrow> real) \<Rightarrow> string \<Rightarrow> nat \<Rightarrow> jsnum \<Rightarrow> jsnum \<Rightarrow> price_data" where
  "generateMockPriceData rnd symbol days startPrice volatility =
     gen_loop rnd volatility days 1 \<lparr> prices = [startPrice], returns = [] \<rparr>"

text \<open>A source whose every draw is the same value.\<close>

definition const_source :: "real \<Rightarrow> nat \<Rightarrow> real" where
  "const_source c k = c"

section \<open>Black-Scholes pricing\<close>

definition normalCDF :: "jsnum \<Rightarrow> jsnum" where
  "normalCDF x0 =
     (let a1 = Fin 0.254829592;
          a2 = Fin (- 0.284496736);
          a3 = Fin 1.421413741;
          a4 = Fin (- 1.453152027);
          a5 = Fin 1.061405429;
          p = Fin 0.3275911;
          sign = (if js_lt x0 (Fin 0) then Fin (- 1) else Fin 1);
          x = js_div (js_abs x0) (js_sqrt (Fin 2));
          t = js_div (Fin 1) (js_add (Fin 1) (js_mul p x));
          y = js_sub (Fin 1)
                (js_mul
                   (js_mul
                      (js_add (js_mul (js_add (js_mul (js_add (js_mul (js_add (js_mul a5 t) a4) t) a3) t) a2) t) a1)
                      t)
                   (js_exp (js_mul (js_neg x) x)))
      in js_mul (Fin 0.5) (js_add (Fin 1) (js_mul sign y)))"

text \<open>The result object; \<^verbatim>\<open>greeks\<close> is kept as the list of its keys and values, since the
  two branches return objects with different keys.\<close>

record pricing =
  callPrice :: jsnum
  putPrice :: jsnum
  greeks :: "(string \<times> jsnum) list"

definition calculateBlackScholes ::
  "jsnum \<Rightarrow> jsnum \<Rightarrow> jsnum \<Rightarrow> jsnum \<Rightarrow> jsnum \<Rightarrow> pricing" where
  "calculateBlackScholes S K T r sigma =
     (let timeToExpiry = js_div T (Fin 365)
      in if js_le timeToExpiry (Fin 0)
         then \<lparr> callPrice = js_max (js_sub S K) (Fin 0),
                putPrice = js_max (js_sub K S) (Fin 0),
                greeks = [(''delta'', if js_gt S K then Fin 1 else Fin 0),
                          (''gamma'', Fin 0), (''theta'', Fin 0),
                          (''vega'', Fin 0), (''rho'', Fin 0)] \<rparr>
         else
           (let sqrtT = js_sqrt timeToExpiry;
                d1 = js_div
                       (js_add (js_log (js_div S K))
                          (js_mul (js_add r (js_mul (js_mul (Fin 0.5) sigma) sigma)) timeToExpiry))
                       (js_mul sigma sqrtT);
                d2 = js_sub d1 (js_mul sigma sqrtT);
                Nd1 = normalCDF d1;
                Nd2 = normalCDF d2;
                nPrime_d1 = js_div (js_exp (js_mul (js_mul (Fin (- 0.5)) d1) d1))
                                   (js_sqrt (js_mul (Fin 2) (Fin pi)));
                disc = js_exp (js_mul (js_neg r) timeToExpiry);
                callRaw = js_sub (js_mul S Nd1) (js_mul (js_mul K disc) Nd2);
                putRaw = js_sub (js_mul (js_mul K disc) (js_sub (Fin 1) Nd2))
                                (js_mul S (js_sub (Fin 1) Nd1));
                delta_call = Nd1;
                delta_put = js_sub Nd1 (Fin 1);
                gamma = js_div nPrime_d1 (js_mul (js_mul S sigma) sqrtT);
                decay = js_div (js_mul (js_mul (js_neg S) nPrime_d1) sigma)
                               (js_mul (Fin 2) sqrtT);
                theta_call = js_div (js_sub decay (js_mul (js_mul (js_mul r K) disc) Nd2))
                                    (Fin 365);
                theta_put = js_div
                              (js_add decay
                                 (js_mul (js_mul (js_mul r K) disc) (js_sub (Fin 1) Nd2)))
                              (Fin 365);
                vega = js_div (js_mul (js_mul S nPrime_d1) sqrtT) (Fin 100);
                rho_call = js_div (js_mul (js_mul (js_mul K timeToExpiry) disc) Nd2) (Fin 100);
                rho_put = js_div
                            (js_mul (js_mul (js_mul (js_neg K) timeToExpiry) disc)
                               (js_sub (Fin 1) Nd2))
                            (Fin 100)
            in \<lparr> callPrice = js_max callRaw (Fin 0),
                 putPrice = js_max putRaw (Fin 0),
                 greeks = [(''delta_call'', delta_call), (''delta_put'', delta_put),
                           (''gamma'', gamma), (''theta_call'', theta_call),
                           (''theta_put'', theta_put), (''vega'', vega),
                           (''rho_call'', rho_call), (''rho_put'', rho_put)] \<rparr>))"

section \<open>Example inputs\<close>

text \<open>A path of 61 prices rising by one a day from 100, and a randomness source that
  returns \<open>a\<close> for its first \<open>n\<close> draws and \<open>b\<close> afterwards.\<close>

definition ramp_prices :: "real list" where
  "ramp_prices = map real [100..<161]"

definition step_source :: "nat \<Rightarrow> real \<Rightarrow> real \<Rightarrow> nat \<Rightarrow> real" where
  "step_source n a b k = (if k < n then a else b)"

section \<open>The loop as a fold over its indices\<close>

declare backtest_loop.simps [simp del] loop_indices.simps [simp del] gen_loop.simps [simp del]

lemma backtest_loop_fold:
  "backtest_loop ps strike premium quantity i st =
     foldl (\<lambda>s j. period_step ps strike premium quantity j s) st
       (loop_indices (length ps) i)"
proof (induction ps strike premium quantity i st rule: backtest_loop.induct)
  case (1 ps strike premium quantity i st)
  show ?case
  proof (cases "int i < int (length ps) - 30")
    case True
    then show ?thesis
      using "1.IH" [OF True]
      by (subst backtest_loop.simps, subst loop_indices.simps) simp
  next
    case False
    then show ?thesis
      by (subst backtest_loop.simps, subst loop_indices.simps) simp
  qed
qed

lemma loop_cond: "(int i < int n - 30) = (i + 30 < n)"
  by linarith

lemma loop_indices_eq:
  "loop_indices n i = map (\<lambda>k. i + 30 * k) [0..<(n - Suc i) div 30]"
proof (induction n i rule: loop_indices.induct)
  case (1 n i)
  show ?case
  proof (cases "int i < int n - 30")
    case True
    then have lt: "i + 30 < n"
      unfolding loop_cond .
    define m where "m = n - Suc (i + 30)"
    have n: "n = Suc (i + 30) + m"
      using lt by (simp add: m_def)
    have d1: "n - Suc i = m + 30"
      unfolding n by simp
    have d: "(n - Suc i) div 30 = Suc (m div 30)"
      unfolding d1 by simp
    have "loop_indices n i = i # loop_indices n (i + 30)"
      by (subst loop_indices.simps) (simp only: True if_True)
    also have "\<dots> = i # map (\<lambda>k. i + 30 + 30 * k) [0..<m div 30]"
      using "1.IH" [OF True] by (simp only: m_def)
    also have "\<dots> = map (\<lambda>k. i + 30 * k) [0..<(n - Suc i) div 30]"
      unfolding d map_upt_Suc by (simp add: add.assoc)
    finally show ?thesis .
  next
    case False
    then have ge: "\<not> i + 30 < n"
      unfolding loop_cond .
    then have "n - Suc i < 30"
      by linarith
    then have "(n - Suc i) div 30 = 0"
      by simp
    moreover have "loop_indices n i = []"
      by (subst loop_indices.simps) (simp only: False if_False)
    ultimately show ?thesis by simp
  qed
qed


section \<open>Arithmetic on finite numbers\<close>

lemma js_sum_snoc: "js_sum (xs @ [x]) = js_add (js_sum xs) x"
  by (simp add: js_sum_def)

lemma js_sum_Fin: "js_sum (map Fin xs) = Fin (sum_list xs)"
proof (induction xs rule: rev_induct)
  case Nil
  show ?case by (simp add: js_sum_def)
next
  case (snoc x xs)
  then show ?case by (simp add: js_sum_snoc)
qed

lemma js_max_Fin:
  "js_max (Fin a) (Fin b) = Fin (max a b)"
  by (simp add: js_max_def max_def)

lemma js_min_list_Fin:
  "cs \<noteq> [] \<Longrightarrow> js_min_list (map Fin cs) = Fin (Min (set cs))"
proof (induction cs)
  case Nil
  then show ?case by simp
next
  case (Cons c cs)
  show ?case
  proof (cases "cs = []")
    case True
    then show ?thesis by (simp add: js_min_def)
  next
    case False
    with Cons.IH have "js_min_list (map Fin cs) = Fin (Min (set cs))"
      by simp
    with False show ?thesis
      by (simp add: js_min_def min_def not_less)
  qed
qed

lemma all_Fin_map:
  "(\<forall>x \<in> set xs. \<exists>c. x = Fin c) \<Longrightarrow> \<exists>cs. xs = map Fin cs"
proof (induction xs)
  case Nil
  then show ?case by simp
next
  case (Cons x xs)
  then obtain c cs where "x = Fin c" "xs = map Fin cs"
    by auto
  then have "x # xs = map Fin (c # cs)"
    by simp
  then show ?case ..
qed

lemma js_index_Fin:
  "i < length ps \<Longrightarrow> js_index (map Fin ps) i = Some (Fin (ps ! i))"
  by (simp add: js_index_def)

lemma tradePnL_Fin:
  "tradePnL (Fin a) (Fin e) (Fin k) (Fin p) (Fin q) =
     Fin ((e - a) * q * 100 + (p * q * 100 - max (e - k) 0 * q * 100))"
  by (simp add: tradePnL_def js_sub_def js_gt_def max_def algebra_simps)

lemma exitPriceAt_cases:
  "exitPriceAt ps i =
     (if exitPriceFallback ps i then js_index ps (length ps - 1) else js_index ps (i + 29))"
  by (simp add: exitPriceAt_def exitPriceFallback_def js_or_def)

lemma exitPriceAt_Fin:
  assumes "i + 30 < length ps"
  shows "exitPriceAt (map Fin ps) i =
     Some (Fin (if ps ! (i + 29) \<noteq> 0 then ps ! (i + 29) else ps ! (length ps - 1)))"
proof -
  have "i + 29 < length ps" "length ps - 1 < length ps"
    using assms by simp_all
  then show ?thesis
    by (simp add: exitPriceAt_def js_or_def js_index_Fin)
qed

lemma period_in_range:
  assumes "k < (n - 1) div 30"
  shows "30 * k + 30 < (n::nat)"
proof -
  from assms have "Suc k \<le> (n - 1) div 30"
    by simp
  then have "30 * Suc k \<le> 30 * ((n - 1) div 30)"
    by (simp only: mult_le_cancel1) simp
  also have "\<dots> \<le> n - 1"
    by simp
  finally have "30 * k + 30 \<le> n - 1"
    by simp
  moreover from assms have "0 < n - 1"
    by (cases "n - 1") simp_all
  ultimately show ?thesis
    by linarith
qed

section \<open>The loop invariant\<close>

lemma period_step_results:
  "st_results (period_step ps strike premium quantity i st) =
     st_results st @
       [\<lparr> date = i + 1, stockPrice = exitPriceAt ps i,
          pnl = tradePnL (to_number (js_index ps i)) (to_number (exitPriceAt ps i))
                  strike premium quantity,
          cumulativePnL = js_add (st_totalPnL st)
            (tradePnL (to_number (js_index ps i)) (to_number (exitPriceAt ps i))
               strike premium quantity) \<rparr>]"
  by (simp add: period_step_def tradePnL_def Let_def)

lemma period_step_total:
  "st_totalPnL (period_step ps strike premium quantity i st) =
     js_add (st_totalPnL st)
       (tradePnL (to_number (js_index ps i)) (to_number (exitPriceAt ps i))
          strike premium quantity)"
  by (simp add: period_step_def tradePnL_def Let_def)

lemma period_step_counts:
  "st_totalTrades (period_step ps strike premium quantity i st) = st_totalTrades st + 1"
  "st_winningTrades (period_step ps strike premium quantity i st) =
     (if js_gt (tradePnL (to_number (js_index ps i)) (to_number (exitPriceAt ps i))
                  strike premium quantity) (Fin 0)
      then st_winningTrades st + 1 else st_winningTrades st)"
  by (simp_all add: period_step_def tradePnL_def Let_def)

lemma bt_inv_init:
  "bt_inv \<lparr> st_results = [], st_totalPnL = Fin 0, st_winningTrades = 0, st_totalTrades = 0 \<rparr>"
  by (simp add: bt_inv_def js_sum_def)

lemma bt_inv_step:
  assumes "bt_inv st"
  shows "bt_inv (period_step ps strike premium quantity i st)"
proof -
  let ?p = "tradePnL (to_number (js_index ps i)) (to_number (exitPriceAt ps i))
              strike premium quantity"
  let ?st = "period_step ps strike premium quantity i st"
  let ?rs = "st_results st"
  from assms have a1: "st_totalTrades st = length ?rs"
    and a2: "st_winningTrades st = length (filter (\<lambda>t. js_gt (pnl t) (Fin 0)) ?rs)"
    and a3: "st_totalPnL st = js_sum (map pnl ?rs)"
    and a4: "\<And>j. j < length ?rs \<Longrightarrow>
               cumulativePnL (?rs ! j) = js_sum (map pnl (take (Suc j) ?rs))"
    by (simp_all add: bt_inv_def)
  have b1: "st_totalTrades ?st = length (st_results ?st)"
    by (simp add: period_step_results period_step_counts a1)
  have b2: "st_winningTrades ?st =
      length (filter (\<lambda>t. js_gt (pnl t) (Fin 0)) (st_results ?st))"
    by (simp add: period_step_results period_step_counts a2)
  have b3: "st_totalPnL ?st = js_sum (map pnl (st_results ?st))"
    by (simp add: period_step_results period_step_total a3 js_sum_snoc)
  have b4: "cumulativePnL (st_results ?st ! j) =
      js_sum (map pnl (take (Suc j) (st_results ?st)))" if "j < length (st_results ?st)" for j
  proof (cases "j < length ?rs")
    case True
    then show ?thesis
      by (simp add: period_step_results nth_append a4)
  next
    case False
    with that have "j = length ?rs"
      by (simp add: period_step_results)
    then show ?thesis
      by (simp add: period_step_results nth_append a3 js_sum_snoc)
  qed
  show ?thesis
    unfolding bt_inv_def using b1 b2 b3 b4 by blast
qed

lemma bt_inv_foldl:
  "bt_inv st \<Longrightarrow>
   bt_inv (foldl (\<lambda>s j. period_step ps strike premium quantity j s) st js)"
  by (induction js arbitrary: st) (simp_all add: bt_inv_step)

lemma bt_inv_loop:
  "bt_inv (backtest_loop ps strike premium quantity 0
     \<lparr> st_results = [], st_totalPnL = Fin 0, st_winningTrades = 0, st_totalTrades = 0 \<rparr>)"
  unfolding backtest_loop_fold by (rule bt_inv_foldl) (rule bt_inv_init)

section \<open>The records of a run\<close>

lemma foldl_results_pnl:
  "map pnl (st_results (foldl (\<lambda>s j. period_step ps strike premium quantity j s) st js)) =
     map pnl (st_results st) @
     map (\<lambda>j. tradePnL (to_number (js_index ps j)) (to_number (exitPriceAt ps j))
                 strike premium quantity) js"
  by (induction js arbitrary: st) (simp_all add: period_step_results)

lemma foldl_results_stockPrice:
  "map stockPrice (st_results (foldl (\<lambda>s j. period_step ps strike premium quantity j s) st js)) =
     map stockPrice (st_results st) @ map (exitPriceAt ps) js"
  by (induction js arbitrary: st) (simp_all add: period_step_results)

lemma foldl_results_date:
  "map date (st_results (foldl (\<lambda>s j. period_step ps strike premium quantity j s) st js)) =
     map date (st_results st) @ map (\<lambda>j. j + 1) js"
  by (induction js arbitrary: st) (simp_all add: period_step_results)

lemma report_fields:
  "trades (runCoveredCallBacktest cap ps strike premium quantity) =
     st_results (backtest_loop ps strike premium quantity 0
       \<lparr> st_results = [], st_totalPnL = Fin 0, st_winningTrades = 0, st_totalTrades = 0 \<rparr>)"
  "totalPnL (runCoveredCallBacktest cap ps strike premium quantity) =
     st_totalPnL (backtest_loop ps strike premium quantity 0
       \<lparr> st_results = [], st_totalPnL = Fin 0, st_winningTrades = 0, st_totalTrades = 0 \<rparr>)"
  "winningTrades (runCoveredCallBacktest cap ps strike premium quantity) =
     st_winningTrades (backtest_loop ps strike premium quantity 0
       \<lparr> st_results = [], st_totalPnL = Fin 0, st_winningTrades = 0, st_totalTrades = 0 \<rparr>)"
  "totalTrades (runCoveredCallBacktest cap ps strike premium quantity) =
     st_totalTrades (backtest_loop ps strike premium quantity 0
       \<lparr> st_results = [], st_totalPnL = Fin 0, st_winningTrades = 0, st_totalTrades = 0 \<rparr>)"
  by (simp_all add: runCoveredCallBacktest_def Let_def)

lemma report_ratios:
  "winRate (runCoveredCallBacktest cap ps strike premium quantity) =
     js_mul (js_div (Fin (real (winningTrades (runCoveredCallBacktest cap ps strike premium quantity))))
                    (Fin (real (totalTrades (runCoveredCallBacktest cap ps strike premium quantity)))))
            (Fin 100)"
  "avgPnL (runCoveredCallBacktest cap ps strike premium quantity) =
     js_div (totalPnL (runCoveredCallBacktest cap ps strike premium quantity))
            (Fin (real (totalTrades (runCoveredCallBacktest cap ps strike premium quantity))))"
  "maxDrawdown (runCoveredCallBacktest cap ps strike premium quantity) =
     js_min_list (map cumulativePnL (trades (runCoveredCallBacktest cap ps strike premium quantity)))"
  "finalReturn (runCoveredCallBacktest cap ps strike premium quantity) =
     js_mul (js_div (totalPnL (runCoveredCallBacktest cap ps strike premium quantity)) cap) (Fin 100)"
  by (simp_all add: runCoveredCallBacktest_def Let_def del: js_div.simps js_mul.simps)

lemma trades_pnl:
  "map pnl (trades (runCoveredCallBacktest cap ps strike premium quantity)) =
     map (\<lambda>k. tradePnL (to_number (js_index ps (30 * k))) (to_number (exitPriceAt ps (30 * k)))
                 strike premium quantity) [0..<(length ps - 1) div 30]"
  by (simp add: report_fields backtest_loop_fold foldl_results_pnl
        loop_indices_eq comp_def)

lemma trades_stockPrice:
  "map stockPrice (trades (runCoveredCallBacktest cap ps strike premium quantity)) =
     map (\<lambda>k. exitPriceAt ps (30 * k)) [0..<(length ps - 1) div 30]"
  by (simp add: report_fields backtest_loop_fold foldl_results_stockPrice
        loop_indices_eq comp_def)

lemma trades_date:
  "map date (trades (runCoveredCallBacktest cap ps strike premium quantity)) =
     map (\<lambda>k. 30 * k + 1) [0..<(length ps - 1) div 30]"
  by (simp add: report_fields backtest_loop_fold foldl_results_date
        loop_indices_eq comp_def)

lemma length_trades:
  "length (trades (runCoveredCallBacktest cap ps strike premium quantity)) =
     (length ps - 1) div 30"
  using arg_cong [OF trades_pnl, of length cap ps strike premium quantity] by simp

lemma report_inv:
  "bt_inv \<lparr> st_results = trades (runCoveredCallBacktest cap ps strike premium quantity),
            st_totalPnL = totalPnL (runCoveredCallBacktest cap ps strike premium quantity),
            st_winningTrades = winningTrades (runCoveredCallBacktest cap ps strike premium quantity),
            st_totalTrades = totalTrades (runCoveredCallBacktest cap ps strike premium quantity) \<rparr>"
  using bt_inv_loop [of ps strike premium quantity]
  by (simp add: report_fields bt_inv_def)

lemma nth_trade_pnl:
  assumes "k < length (trades (runCoveredCallBacktest cap ps strike premium quantity))"
  shows "pnl (trades (runCoveredCallBacktest cap ps strike premium quantity) ! k) =
     tradePnL (to_number (js_index ps (30 * k))) (to_number (exitPriceAt ps (30 * k)))
       strike premium quantity"
proof -
  let ?ts = "trades (runCoveredCallBacktest cap ps strike premium quantity)"
  have k: "k < (length ps - 1) div 30"
    using assms by (simp add: length_trades)
  have "pnl (?ts ! k) = map pnl ?ts ! k"
    using assms by simp
  also have "\<dots> = tradePnL (to_number (js_index ps (30 * k)))
      (to_number (exitPriceAt ps (30 * k))) strike premium quantity"
    unfolding trades_pnl using k by simp
  finally show ?thesis .
qed

lemma nth_trade_stockPrice:
  assumes "k < length (trades (runCoveredCallBacktest cap ps strike premium quantity))"
  shows "stockPrice (trades (runCoveredCallBacktest cap ps strike premium quantity) ! k) =
     exitPriceAt ps (30 * k)"
proof -
  let ?ts = "trades (runCoveredCallBacktest cap ps strike premium quantity)"
  have k: "k < (length ps - 1) div 30"
    using assms by (simp add: length_trades)
  have "stockPrice (?ts ! k) = map stockPrice ?ts ! k"
    using assms by simp
  also have "\<dots> = exitPriceAt ps (30 * k)"
    unfolding trades_stockPrice using k by simp
  finally show ?thesis .
qed

lemma trades_pnl_Fin:
  assumes "t \<in> set (trades (runCoveredCallBacktest cap (map Fin ps)
                                 (Fin strike) (Fin premium) (Fin quantity)))"
  shows "\<exists>x. pnl t = Fin x"
proof -
  let ?ts = "trades (runCoveredCallBacktest cap (map Fin ps) (Fin strike) (Fin premium) (Fin quantity))"
  from assms obtain k where k: "k < length ?ts" and t: "t = ?ts ! k"
    by (auto simp: in_set_conv_nth)
  have kk: "k < (length ps - 1) div 30"
    using k by (simp add: length_trades)
  then have r: "30 * k + 30 < length ps"
    by (rule period_in_range)
  then obtain e where e: "exitPriceAt (map Fin ps) (30 * k) = Some (Fin e)"
    using exitPriceAt_Fin by blast
  have i: "js_index (map Fin ps) (30 * k) = Some (Fin (ps ! (30 * k)))"
    using r by (simp add: js_index_Fin)
  show ?thesis
    unfolding t using nth_trade_pnl [OF k] by (simp add: e i tradePnL_Fin)
qed

lemma take_pnl_Fin:
  assumes "\<forall>t \<in> set ts. \<exists>x. pnl t = Fin x"
  shows "\<exists>c. js_sum (map pnl (take n ts)) = Fin c"
proof -
  have "\<forall>x \<in> set (map pnl (take n ts)). \<exists>c. x = Fin c"
    using assms by (auto dest: in_set_takeD)
  then obtain cs where "map pnl (take n ts) = map Fin cs"
    using all_Fin_map by blast
  then show ?thesis
    by (simp add: js_sum_Fin)
qed

lemma nth_cumulative:
  assumes "i < length (trades (runCoveredCallBacktest cap ps strike premium quantity))"
  shows "cumulativePnL (trades (runCoveredCallBacktest cap ps strike premium quantity) ! i) =
     js_sum (map pnl (take (Suc i) (trades (runCoveredCallBacktest cap ps strike premium quantity))))"
  using report_inv [of cap ps strike premium quantity] assms
  by (simp add: bt_inv_def)

lemma total_is_sum:
  "totalPnL (runCoveredCallBacktest cap ps strike premium quantity) =
     js_sum (map pnl (trades (runCoveredCallBacktest cap ps strike premium quantity)))"
  using report_inv [of cap ps strike premium quantity]
  by (simp add: bt_inv_def)

section \<open>Runs on the example inputs\<close>

lemma ramp_length: "length ramp_prices = 61"
  by (simp add: ramp_prices_def)

lemma ramp_nth:
  assumes "i < 61"
  shows "ramp_prices ! i = real (100 + i)"
proof -
  have "i < length [100..<161]"
    using assms by (simp only: length_upt)
  then have "ramp_prices ! i = real ([100..<161] ! i)"
    unfolding ramp_prices_def by (rule nth_map)
  also have "[100..<161] ! i = 100 + i"
    using assms by (intro nth_upt) simp
  finally show ?thesis .
qed

lemma ramp_exit: "i + 30 < 61 \<Longrightarrow> exitPriceAt (map Fin ramp_prices) i = Some (Fin (real (129 + i)))"
  by (simp add: exitPriceAt_def js_or_def js_index_def ramp_length ramp_nth)

lemma ramp_trades:
  "trades (runCoveredCallBacktest cap (map Fin ramp_prices) (Fin 110) (Fin 2) (Fin 1)) =
     [\<lparr> date = 1, stockPrice = Some (Fin 129), pnl = Fin 1200, cumulativePnL = Fin 1200 \<rparr>,
      \<lparr> date = 31, stockPrice = Some (Fin 159), pnl = Fin (- 1800), cumulativePnL = Fin (- 600) \<rparr>]"
  by (simp add: report_fields backtest_loop_fold loop_indices_eq ramp_length period_step_def
        ramp_exit js_index_def ramp_nth js_sub_def js_gt_def Let_def numeral_2_eq_2)

lemma ramp_maxDrawdown:
  "maxDrawdown (runCoveredCallBacktest cap (map Fin ramp_prices) (Fin 110) (Fin 2) (Fin 1)) = Fin (- 600)"
  by (simp add: report_ratios ramp_trades js_min_def)

lemma flat31_trades:
  "trades (runCoveredCallBacktest cap (replicate 31 (Fin 100)) (Fin 110) (Fin 2) (Fin 1)) =
     [\<lparr> date = 1, stockPrice = Some (Fin 100), pnl = Fin 200, cumulativePnL = Fin 200 \<rparr>]"
  by (simp add: report_fields backtest_loop_fold loop_indices_eq period_step_def
        exitPriceAt_def js_or_def js_index_def js_sub_def js_gt_def Let_def)

lemma flat31_caller_trades:
  "trades (runCoveredCallBacktest cap (replicate 31 (Fin 12450)) (Fin 12865) (Fin (581 / 2)) (Fin 10)) =
     [\<lparr> date = 1, stockPrice = Some (Fin 12450), pnl = Fin 290500,
        cumulativePnL = Fin 290500 \<rparr>]"
  by (simp add: report_fields backtest_loop_fold loop_indices_eq period_step_def
        exitPriceAt_def js_or_def js_index_def js_sub_def js_gt_def Let_def)

section \<open>The generator's loop\<close>

lemma gen_loop_unfold:
  "i < days \<Longrightarrow>
   gen_loop rnd volatility days i d =
     gen_loop rnd volatility days (i + 1)
       \<lparr> prices = prices d @
            [js_max (js_mul (to_number (js_index (prices d) (i - 1)))
                            (js_add (Fin 1) (randomReturn (rnd (i - 1)) volatility))) (Fin 1)],
         returns = returns d @ [randomReturn (rnd (i - 1)) volatility] \<rparr>"
  by (subst gen_loop.simps) (simp add: Let_def)

lemma gen_loop_done: "\<not> i < days \<Longrightarrow> gen_loop rnd volatility days i d = d"
  by (subst gen_loop.simps) simp

lemma gen_loop_prefix:
  "\<exists>ext. prices (gen_loop rnd volatility days i d) = prices d @ ext \<and> length ext = days - i"
proof (induction rnd volatility days i d rule: gen_loop.induct)
  case (1 rnd volatility days i d)
  show ?case
  proof (cases "i < days")
    case True
    let ?x = "js_max (js_mul (to_number (js_index (prices d) (i - 1)))
                (js_add (Fin 1) (randomReturn (rnd (i - 1)) volatility))) (Fin 1)"
    let ?d = "\<lparr> prices = prices d @ [?x],
                returns = returns d @ [randomReturn (rnd (i - 1)) volatility] \<rparr>"
    from "1.IH" [OF True refl refl]
    obtain ext where e: "prices (gen_loop rnd volatility days (i + 1) ?d) = prices ?d @ ext"
      and l: "length ext = days - (i + 1)"
      by (auto simp: Let_def)
    have "prices (gen_loop rnd volatility days i d) = prices d @ (?x # ext)"
      using e by (simp add: gen_loop_unfold [OF True])
    moreover have "length (?x # ext) = days - i"
      using l True by simp
    ultimately show ?thesis
      by blast
  next
    case False
    then show ?thesis
      by (simp add: gen_loop_done)
  qed
qed

lemma gen_loop_step:
  assumes "length (prices d) = i" and "1 \<le> i" and "i \<le> j" and "j < days"
  shows "prices (gen_loop rnd volatility days i d) ! j =
     js_max (js_mul (prices (gen_loop rnd volatility days i d) ! (j - 1))
                    (js_add (Fin 1) (randomReturn (rnd (j - 1)) volatility))) (Fin 1)"
  using assms
proof (induction rnd volatility days i d rule: gen_loop.induct)
  case (1 rnd volatility days i d)
  from "1.prems" have lt: "i < days"
    by simp
  let ?x = "js_max (js_mul (to_number (js_index (prices d) (i - 1)))
              (js_add (Fin 1) (randomReturn (rnd (i - 1)) volatility))) (Fin 1)"
  let ?d = "\<lparr> prices = prices d @ [?x],
              returns = returns d @ [randomReturn (rnd (i - 1)) volatility] \<rparr>"
  have u: "gen_loop rnd volatility days i d = gen_loop rnd volatility days (i + 1) ?d"
    by (rule gen_loop_unfold [OF lt])
  show ?case
  proof (cases "j = i")
    case True
    obtain ext where e: "prices (gen_loop rnd volatility days (i + 1) ?d) = prices ?d @ ext"
      using gen_loop_prefix by blast
    have idx: "js_index (prices d) (i - 1) = Some (prices d ! (i - 1))"
      using "1.prems" by (simp add: js_index_def)
    have a: "prices (gen_loop rnd volatility days i d) ! i = ?x"
      unfolding u e using "1.prems" by (simp add: nth_append)
    have b: "prices (gen_loop rnd volatility days i d) ! (i - 1) = prices d ! (i - 1)"
      unfolding u e using "1.prems" by (simp add: nth_append)
    show ?thesis
      unfolding True a b using idx by simp
  next
    case False
    with "1.prems" have "i + 1 \<le> j"
      by simp
    moreover have "length (prices ?d) = i + 1"
      using "1.prems" by simp
    ultimately show ?thesis
      unfolding u using "1.IH" [OF lt refl refl] "1.prems" by (simp add: Let_def)
  qed
qed

lemma gen_loop_cong:
  assumes "\<forall>k. i - 1 \<le> k \<and> k + 1 < days \<longrightarrow> rnd k = rnd' k" and "1 \<le> i"
  shows "gen_loop rnd volatility days i d = gen_loop rnd' volatility days i d"
  using assms
proof (induction rnd volatility days i d rule: gen_loop.induct)
  case (1 rnd volatility days i d)
  show ?case
  proof (cases "i < days")
    case True
    with "1.prems" have r: "rnd (i - 1) = rnd' (i - 1)"
      by simp
    let ?d = "\<lparr> prices = prices d @
        [js_max (js_mul (to_number (js_index (prices d) (i - 1)))
                        (js_add (Fin 1) (randomReturn (rnd' (i - 1)) volatility))) (Fin 1)],
      returns = returns d @ [randomReturn (rnd' (i - 1)) volatility] \<rparr>"
    have "\<forall>k. i + 1 - 1 \<le> k \<and> k + 1 < days \<longrightarrow> rnd k = rnd' k"
    proof (intro allI impI)
      fix k assume "i + 1 - 1 \<le> k \<and> k + 1 < days"
      then have "i - 1 \<le> k \<and> k + 1 < days"
        by auto
      with "1.prems" show "rnd k = rnd' k"
        by blast
    qed
    then have "gen_loop rnd volatility days (i + 1) ?d = gen_loop rnd' volatility days (i + 1) ?d"
      using "1.IH" [OF True refl refl] r by simp
    then show ?thesis
      unfolding gen_loop_unfold [OF True, of rnd] gen_loop_unfold [OF True, of rnd'] r .
  next
    case False
    then show ?thesis
      by (simp add: gen_loop_done)
  qed
qed

lemma randomReturn_Fin:
  "randomReturn r (Fin v) = Fin ((r - 1 / 2) * v * 2)"
  by (simp add: randomReturn_def js_sub_def)

lemma randomReturn_range:
  assumes "0 \<le> r" and "r < 1" and "0 \<le> (v::real)"
  shows "- v \<le> (r - 1 / 2) * v * 2 \<and> (r - 1 / 2) * v * 2 \<le> v"
proof -
  have "(r - 1 / 2) * v * 2 = (2 * r - 1) * v"
    by (simp add: algebra_simps)
  moreover have "- 1 \<le> 2 * r - 1" "2 * r - 1 \<le> 1"
    using assms by simp_all
  moreover have "- v = (- 1) * v" "v = 1 * v"
    by simp_all
  ultimately show ?thesis
    using assms(3) by (metis mult_right_mono)
qed

section \<open>The expiry branch\<close>

lemma expiry_branch:
  "calculateBlackScholes (Fin S) (Fin K) (Fin 0) r sigma =
     \<lparr> callPrice = Fin (max (S - K) 0), putPrice = Fin (max (K - S) 0),
       greeks = [(''delta'', Fin (if K < S then 1 else 0)), (''gamma'', Fin 0),
                 (''theta'', Fin 0), (''vega'', Fin 0), (''rho'', Fin 0)] \<rparr>"
  by (simp add: calculateBlackScholes_def Let_def js_le_def js_sub_def js_max_def js_gt_def max_def)

section \<open>Properties of the backtest\<close>

text \<open>
  Claim C1. The run is expected to evaluate every full block of 30 trading days, so a path of
  length \<open>N\<close> should give \<open>N div 30\<close> records, and a flat path of 30 prices below the
  strike should give one period worth \<open>premium * quantity * 100\<close>. The loop's bound
  \<^verbatim>\<open>i < prices.length - 30\<close> stops one block early when \<open>N\<close> is a multiple of 30: the
  run produces \<open>(N - 1) div 30\<close> records (\<open>length_trades\<close>), and on the flat path of 30
  prices it produces no record at all, where 200 was expected for premium 2 and quantity 1.
\<close>

theorem flat30_no_period:
  "trades (runCoveredCallBacktest (Fin 8300000) (replicate 30 (Fin 100)) (Fin 110) (Fin 2) (Fin 1)) = [] \<and>
   totalTrades (runCoveredCallBacktest (Fin 8300000) (replicate 30 (Fin 100)) (Fin 110) (Fin 2) (Fin 1)) = 0"
  by (simp add: runCoveredCallBacktest_def Let_def backtest_loop.simps)




text \<open>
  What the code computes for \<^verbatim>\<open>maxDrawdown\<close>: for every path of finite prices that produces
  at least one period, every cumulative profit is finite and the field is the plain minimum
  of the cumulative profits of all periods, \<^verbatim>\<open>Math.min\<close> over the records, with no floor
  at zero.
\<close>

lemma maxDrawdown_is_minimum:
  assumes "trades (runCoveredCallBacktest cap (map Fin ps)
                     (Fin strike) (Fin premium) (Fin quantity)) \<noteq> []"
  shows "\<exists>cs. map cumulativePnL (trades (runCoveredCallBacktest cap (map Fin ps)
                                          (Fin strike) (Fin premium) (Fin quantity))) =
                 map Fin cs \<and>
              maxDrawdown (runCoveredCallBacktest cap (map Fin ps)
                             (Fin strike) (Fin premium) (Fin quantity)) =
                 Fin (Min (set cs))"
proof -
  let ?R = "runCoveredCallBacktest cap (map Fin ps) (Fin strike) (Fin premium) (Fin quantity)"
  have p: "\<forall>t \<in> set (trades ?R). \<exists>x. pnl t = Fin x"
    using trades_pnl_Fin by blast
  have "\<forall>c \<in> set (map cumulativePnL (trades ?R)). \<exists>x. c = Fin x"
  proof
    fix c assume "c \<in> set (map cumulativePnL (trades ?R))"
    then obtain i where i: "i < length (trades ?R)" and c: "c = cumulativePnL (trades ?R ! i)"
      by (auto simp: in_set_conv_nth)
    show "\<exists>x. c = Fin x"
      unfolding c nth_cumulative [OF i] using take_pnl_Fin [OF p] .
  qed
  then obtain cs where cs: "map cumulativePnL (trades ?R) = map Fin cs"
    using all_Fin_map by blast
  with assms have "cs \<noteq> []"
    by auto
  then have "js_min_list (map Fin cs) = Fin (Min (set cs))"
    by (rule js_min_list_Fin)
  then have "maxDrawdown ?R = Fin (Min (set cs))"
    by (simp add: report_ratios cs)
  with cs show ?thesis
    by blast
qed

text \<open>On the rising path the cumulative profits are 1200 and -600, and \<^verbatim>\<open>maxDrawdown\<close> is
  -600.\<close>

lemma maxDrawdown_is_minimum_ramp:
  "trades (runCoveredCallBacktest (Fin 8300000) (map Fin ramp_prices) (Fin 110) (Fin 2) (Fin 1)) \<noteq> [] \<and>
   (\<exists>cs. map cumulativePnL (trades (runCoveredCallBacktest (Fin 8300000) (map Fin ramp_prices)
                                      (Fin 110) (Fin 2) (Fin 1))) = map Fin cs \<and>
         maxDrawdown (runCoveredCallBacktest (Fin 8300000) (map Fin ramp_prices)
                        (Fin 110) (Fin 2) (Fin 1)) = Fin (Min (set cs))) \<and>
   maxDrawdown (runCoveredCallBacktest (Fin 8300000) (map Fin ramp_prices)
                  (Fin 110) (Fin 2) (Fin 1)) = Fin (- 600)"
proof -
  have h: "trades (runCoveredCallBacktest (Fin 8300000) (map Fin ramp_prices)
                     (Fin 110) (Fin 2) (Fin 1)) \<noteq> []"
    by (simp add: ramp_trades)
  show ?thesis
    using h maxDrawdown_is_minimum [OF h] ramp_maxDrawdown by blast
qed

text \<open>
  Claim C5. \<^verbatim>\<open>maxDrawdown\<close> is expected to be the minimum cumulative profit observed, or
  zero when no cumulative profit is negative: a drawdown is a decline, the project's README
  describes it as the largest peak-to-trough decline and shows it negative, and the result
  card renders the field with the fixed class \<^verbatim>\<open>negative\<close>. The code takes the minimum
  without the floor. On a flat path of 31 prices of 100 below the strike 110, with premium 2
  and quantity 1, the only cumulative profit is 200: none is negative, and \<^verbatim>\<open>maxDrawdown\<close> is
  200 where zero was expected. With the caller's own constants (prices of 12450, strike
  12865, premium 290.5, quantity 10) it is 290500.
\<close>

theorem flat31_maxDrawdown_positive:
  "map cumulativePnL (trades (runCoveredCallBacktest (Fin 8300000) (replicate 31 (Fin 100))
                                (Fin 110) (Fin 2) (Fin 1))) = [Fin 200] \<and>
   maxDrawdown (runCoveredCallBacktest (Fin 8300000) (replicate 31 (Fin 100))
                  (Fin 110) (Fin 2) (Fin 1)) = Fin 200 \<and>
   map cumulativePnL (trades (runCoveredCallBacktest (Fin 8300000) (replicate 31 (Fin 12450))
                                (Fin 12865) (Fin (581 / 2)) (Fin 10))) = [Fin 290500] \<and>
   maxDrawdown (runCoveredCallBacktest (Fin 8300000) (replicate 31 (Fin 12450))
                  (Fin 12865) (Fin (581 / 2)) (Fin 10)) = Fin 290500"
  by (simp add: report_ratios flat31_trades flat31_caller_trades js_min_def)

text \<open>
  Claim C6. In every report, the cumulative profit of the record at index \<open>i\<close> is the sum of
  the profits of the records \<open>0..i\<close>; it is the cumulative profit of the record before it
  (zero for the first record) plus the profit of the record itself; and \<^verbatim>\<open>totalPnL\<close> is the
  cumulative profit of the last record. The sum is the left-to-right sum of JavaScript
  numbers, so the statement holds for every input, finite or not.
\<close>

theorem cumulative_running_sum:
  assumes "i < length (trades (runCoveredCallBacktest cap ps strike premium quantity))"
  shows "cumulativePnL (trades (runCoveredCallBacktest cap ps strike premium quantity) ! i) =
           js_sum (map pnl (take (Suc i)
             (trades (runCoveredCallBacktest cap ps strike premium quantity)))) \<and>
         cumulativePnL (trades (runCoveredCallBacktest cap ps strike premium quantity) ! i) =
           js_add (if i = 0 then Fin 0
                   else cumulativePnL
                          (trades (runCoveredCallBacktest cap ps strike premium quantity) ! (i - 1)))
                  (pnl (trades (runCoveredCallBacktest cap ps strike premium quantity) ! i)) \<and>
         totalPnL (runCoveredCallBacktest cap ps strike premium quantity) =
           cumulativePnL (last (trades (runCoveredCallBacktest cap ps strike premium quantity)))"
proof -
  let ?R = "runCoveredCallBacktest cap ps strike premium quantity"
  let ?ts = "trades ?R"
  have c: "cumulativePnL (?ts ! j) = js_sum (map pnl (take (Suc j) ?ts))" if "j < length ?ts" for j
    using that by (rule nth_cumulative)
  have s: "js_sum (map pnl (take (Suc i) ?ts)) = js_add (js_sum (map pnl (take i ?ts))) (pnl (?ts ! i))"
    using assms by (simp add: take_Suc_conv_app_nth js_sum_snoc)
  have prev: "js_sum (map pnl (take i ?ts)) =
      (if i = 0 then Fin 0 else cumulativePnL (?ts ! (i - 1)))"
  proof (cases i)
    case 0
    then show ?thesis by (simp add: js_sum_def)
  next
    case (Suc j)
    with assms have "j < length ?ts" by simp
    from c [OF this] Suc show ?thesis by simp
  qed
  from assms have ne: "?ts \<noteq> []"
    by auto
  then have l: "last ?ts = ?ts ! (length ?ts - 1)"
    by (rule last_conv_nth)
  have "cumulativePnL (last ?ts) = js_sum (map pnl (take (Suc (length ?ts - 1)) ?ts))"
    unfolding l using ne by (intro c) simp
  also have "\<dots> = js_sum (map pnl ?ts)"
    using ne by simp
  finally have t: "totalPnL ?R = cumulativePnL (last ?ts)"
    by (simp add: total_is_sum)
  show ?thesis
    using c [OF assms] s prev t by simp
qed

theorem cumulative_running_sum_witness:
  "1 < length (trades (runCoveredCallBacktest (Fin 8300000) (map Fin ramp_prices)
                         (Fin 110) (Fin 2) (Fin 1))) \<and>
   cumulativePnL (trades (runCoveredCallBacktest (Fin 8300000) (map Fin ramp_prices)
                            (Fin 110) (Fin 2) (Fin 1)) ! 1) =
     js_sum (map pnl (take 2 (trades (runCoveredCallBacktest (Fin 8300000) (map Fin ramp_prices)
                                        (Fin 110) (Fin 2) (Fin 1))))) \<and>
   cumulativePnL (trades (runCoveredCallBacktest (Fin 8300000) (map Fin ramp_prices)
                            (Fin 110) (Fin 2) (Fin 1)) ! 1) =
     js_add (cumulativePnL (trades (runCoveredCallBacktest (Fin 8300000) (map Fin ramp_prices)
                                      (Fin 110) (Fin 2) (Fin 1)) ! 0))
            (pnl (trades (runCoveredCallBacktest (Fin 8300000) (map Fin ramp_prices)
                            (Fin 110) (Fin 2) (Fin 1)) ! 1)) \<and>
   totalPnL (runCoveredCallBacktest (Fin 8300000) (map Fin ramp_prices) (Fin 110) (Fin 2) (Fin 1)) =
     Fin (- 600)"
proof -
  have h: "1 < length (trades (runCoveredCallBacktest (Fin 8300000) (map Fin ramp_prices)
                                 (Fin 110) (Fin 2) (Fin 1)))"
    by (simp add: ramp_trades)
  show ?thesis
    using h cumulative_running_sum [OF h] by (simp add: ramp_trades numeral_2_eq_2)
qed

text \<open>
  Claim C7. For every evaluated period \<open>k\<close> of a run on finite inputs, the recorded profit is
  \<open>stockPnL + optionPnL\<close> with \<open>stockPnL = (exitPrice - entryPrice) * quantity * 100\<close> and
  \<open>optionPnL = premium * quantity * 100 - max (exitPrice - strike) 0 * quantity * 100\<close>, where
  \<open>entryPrice\<close> is the price at index \<open>30 * k\<close> and \<open>exitPrice\<close> is the recorded exit price,
  which is the price at index \<open>30 * k + 29\<close> whenever that price is not zero.
\<close>

theorem period_pnl_formula:
  assumes "k < length (trades (runCoveredCallBacktest cap (map Fin ps)
                                 (Fin strike) (Fin premium) (Fin quantity)))"
  shows "\<exists>exitPrice.
           stockPrice (trades (runCoveredCallBacktest cap (map Fin ps)
                                 (Fin strike) (Fin premium) (Fin quantity)) ! k) =
             Some (Fin exitPrice) \<and>
           (ps ! (30 * k + 29) \<noteq> 0 \<longrightarrow> exitPrice = ps ! (30 * k + 29)) \<and>
           pnl (trades (runCoveredCallBacktest cap (map Fin ps)
                          (Fin strike) (Fin premium) (Fin quantity)) ! k) =
             Fin ((exitPrice - ps ! (30 * k)) * quantity * 100 +
                  (premium * quantity * 100 - max (exitPrice - strike) 0 * quantity * 100))"
proof -
  have k: "k < (length ps - 1) div 30"
    using assms by (simp add: length_trades)
  then have r: "30 * k + 30 < length ps"
    by (rule period_in_range)
  define e where "e = (if ps ! (30 * k + 29) \<noteq> 0 then ps ! (30 * k + 29)
                       else ps ! (length ps - 1))"
  have e: "exitPriceAt (map Fin ps) (30 * k) = Some (Fin e)"
    unfolding e_def by (rule exitPriceAt_Fin [OF r])
  have i: "js_index (map Fin ps) (30 * k) = Some (Fin (ps ! (30 * k)))"
    using r by (simp add: js_index_Fin)
  have "stockPrice (trades (runCoveredCallBacktest cap (map Fin ps)
          (Fin strike) (Fin premium) (Fin quantity)) ! k) = Some (Fin e)"
    using nth_trade_stockPrice [OF assms] by (simp add: e)
  moreover have "ps ! (30 * k + 29) \<noteq> 0 \<longrightarrow> e = ps ! (30 * k + 29)"
    by (simp add: e_def)
  moreover have "pnl (trades (runCoveredCallBacktest cap (map Fin ps)
          (Fin strike) (Fin premium) (Fin quantity)) ! k) =
      Fin ((e - ps ! (30 * k)) * quantity * 100 +
           (premium * quantity * 100 - max (e - strike) 0 * quantity * 100))"
    using nth_trade_pnl [OF assms] by (simp add: e i tradePnL_Fin)
  ultimately show ?thesis
    by blast
qed

theorem period_pnl_formula_witness:
  "1 < length (trades (runCoveredCallBacktest (Fin 8300000) (map Fin ramp_prices)
                         (Fin 110) (Fin 2) (Fin 1))) \<and>
   ramp_prices ! (30 * 1 + 29) \<noteq> 0 \<and>
   (\<exists>exitPrice.
      stockPrice (trades (runCoveredCallBacktest (Fin 8300000) (map Fin ramp_prices)
                            (Fin 110) (Fin 2) (Fin 1)) ! 1) = Some (Fin exitPrice) \<and>
      exitPrice = ramp_prices ! (30 * 1 + 29) \<and>
      pnl (trades (runCoveredCallBacktest (Fin 8300000) (map Fin ramp_prices)
                     (Fin 110) (Fin 2) (Fin 1)) ! 1) =
        Fin ((exitPrice - ramp_prices ! (30 * 1)) * 1 * 100 +
             (2 * 1 * 100 - max (exitPrice - 110) 0 * 1 * 100))) \<and>
   pnl (trades (runCoveredCallBacktest (Fin 8300000) (map Fin ramp_prices)
                  (Fin 110) (Fin 2) (Fin 1)) ! 1) = Fin (- 1800)"
proof -
  have h: "1 < length (trades (runCoveredCallBacktest (Fin 8300000) (map Fin ramp_prices)
                                 (Fin 110) (Fin 2) (Fin 1)))"
    by (simp add: ramp_trades)
  have n: "ramp_prices ! (30 * 1 + 29) \<noteq> 0"
    by (simp add: ramp_nth)
  have v: "pnl (trades (runCoveredCallBacktest (Fin 8300000) (map Fin ramp_prices)
                          (Fin 110) (Fin 2) (Fin 1)) ! 1) = Fin (- 1800)"
    by (simp add: ramp_trades)
  show ?thesis
    using h n v period_pnl_formula [OF h] by blast
qed

text \<open>
  Claim C10. For every index \<open>i\<close> that satisfies the loop's condition
  \<open>i < length - 30\<close>, over a path whose elements are all positive, the read at \<open>i + 29\<close> is
  within bounds and truthy, so the exit price is that element and the fallback to the last
  element is not taken.
\<close>

theorem exit_index_in_bounds:
  assumes "\<forall>x \<in> set ps. js_gt x (Fin 0)"
    and "int i < int (length ps) - 30"
  shows "i + 29 < length ps \<and> \<not> exitPriceFallback ps i \<and>
         exitPriceAt ps i = Some (ps ! (i + 29))"
proof -
  from assms(2) have r: "i + 29 < length ps"
    by linarith
  then have "ps ! (i + 29) \<in> set ps"
    by simp
  with assms(1) have "js_gt (ps ! (i + 29)) (Fin 0)"
    by blast
  then have "ps ! (i + 29) \<noteq> NaN \<and> ps ! (i + 29) \<noteq> Fin 0"
    by (auto simp: js_gt_def)
  then have "truthy (js_index ps (i + 29))"
    using r by (simp add: js_index_def)
  then show ?thesis
    using r by (simp add: exitPriceFallback_def exitPriceAt_def js_or_def js_index_def)
qed

theorem exit_index_in_bounds_witness:
  "js_gt (map Fin ramp_prices ! (30 + 29)) (Fin 0) \<and>
   int 30 < int (length (map Fin ramp_prices)) - 30 \<and>
   30 + 29 < length (map Fin ramp_prices) \<and>
   \<not> exitPriceFallback (map Fin ramp_prices) 30 \<and>
   exitPriceAt (map Fin ramp_prices) 30 = Some (map Fin ramp_prices ! (30 + 29)) \<and>
   exitPriceAt (map Fin ramp_prices) 30 = Some (Fin 159)"
proof -
  have p: "\<forall>x \<in> set (map Fin ramp_prices). js_gt x (Fin 0)"
    by (auto simp: ramp_prices_def js_gt_def)
  have b: "int 30 < int (length (map Fin ramp_prices)) - 30"
    by (simp add: ramp_length)
  have "30 + 29 < length (map Fin ramp_prices)"
    by (simp add: ramp_length)
  then have "map Fin ramp_prices ! (30 + 29) \<in> set (map Fin ramp_prices)"
    by (rule nth_mem)
  with p have g: "js_gt (map Fin ramp_prices ! (30 + 29)) (Fin 0)"
    by blast
  have v: "exitPriceAt (map Fin ramp_prices) 30 = Some (Fin 159)"
    by (simp add: ramp_exit)
  show ?thesis
    using g b v exit_index_in_bounds [OF p b] by blast
qed

section \<open>Properties of the generator\<close>

text \<open>
  Claim C8, as the code has it. For every \<open>startPrice > 0\<close>, \<open>numDays \<ge> 1\<close> and
  \<open>dailyVolatility > 0\<close>, and draws in \<open>[0, 1)\<close>: the path has length \<open>numDays\<close>; its first
  element is \<open>startPrice\<close> itself, which is not floored; every later element is
  \<open>max (p * (1 + u)) 1\<close> for the previous element \<open>p\<close> and some \<open>u\<close> in
  \<open>[- dailyVolatility, dailyVolatility]\<close>; and every element is positive.
\<close>

theorem generated_path_shape:
  assumes "0 < s" and "1 \<le> days" and "0 < v" and "\<forall>k. 0 \<le> rnd k \<and> rnd k < 1"
  shows "length (prices (generateMockPriceData rnd symbol days (Fin s) (Fin v))) = days \<and>
         prices (generateMockPriceData rnd symbol days (Fin s) (Fin v)) ! 0 = Fin s \<and>
         (\<forall>j. 0 < j \<and> j < days \<longrightarrow>
            (\<exists>u p. - v \<le> u \<and> u \<le> v \<and>
               prices (generateMockPriceData rnd symbol days (Fin s) (Fin v)) ! (j - 1) = Fin p \<and>
               prices (generateMockPriceData rnd symbol days (Fin s) (Fin v)) ! j =
                 Fin (max (p * (1 + u)) 1))) \<and>
         (\<forall>j < days. \<exists>p. 0 < p \<and>
            prices (generateMockPriceData rnd symbol days (Fin s) (Fin v)) ! j = Fin p)"
proof -
  let ?d0 = "\<lparr> prices = [Fin s], returns = [] \<rparr>"
  let ?P = "prices (generateMockPriceData rnd symbol days (Fin s) (Fin v))"
  have P: "?P = prices (gen_loop rnd (Fin v) days 1 ?d0)"
    by (simp add: generateMockPriceData_def)
  obtain ext where e: "?P = [Fin s] @ ext" and l: "length ext = days - 1"
    unfolding P using gen_loop_prefix [of rnd "Fin v" days 1 ?d0] by auto
  have len: "length ?P = days"
    using e l assms(2) by simp
  have first: "?P ! 0 = Fin s"
    using e by simp
  have step: "?P ! j = js_max (js_mul (?P ! (j - 1))
      (js_add (Fin 1) (randomReturn (rnd (j - 1)) (Fin v)))) (Fin 1)"
    if "0 < j" "j < days" for j
    unfolding P using that by (intro gen_loop_step) simp_all
  have pos: "\<exists>p. 0 < p \<and> ?P ! j = Fin p" if "j < days" for j
    using that
  proof (induction j)
    case 0
    then show ?case using first assms(1) by blast
  next
    case (Suc j)
    then obtain p where p: "0 < p" "?P ! j = Fin p"
      by auto
    have "?P ! Suc j = Fin (max (p * (1 + (rnd j - 1 / 2) * v * 2)) 1)"
      using step [of "Suc j"] Suc.prems
      by (simp add: p randomReturn_Fin js_max_Fin)
    moreover have "0 < max (p * (1 + (rnd j - 1 / 2) * v * 2)) 1"
      by simp
    ultimately show ?case
      by blast
  qed
  have rel: "\<exists>u p. - v \<le> u \<and> u \<le> v \<and> ?P ! (j - 1) = Fin p \<and>
      ?P ! j = Fin (max (p * (1 + u)) 1)" if "0 < j \<and> j < days" for j
  proof -
    from that have "j - 1 < days"
      by auto
    then obtain p where p: "?P ! (j - 1) = Fin p"
      using pos by blast
    let ?u = "(rnd (j - 1) - 1 / 2) * v * 2"
    have "?P ! j = Fin (max (p * (1 + ?u)) 1)"
      using step [of j] that p by (simp add: randomReturn_Fin js_max_Fin)
    moreover have "- v \<le> ?u \<and> ?u \<le> v"
      using assms(3,4) by (intro randomReturn_range) simp_all
    ultimately show ?thesis
      using p by blast
  qed
  show ?thesis
    using len first rel pos by blast
qed

theorem generated_path_shape_witness:
  "(0::real) < 100 \<and> (1::nat) \<le> 3 \<and> (0::real) < 1 / 10 \<and>
   (\<forall>k. 0 \<le> const_source (3 / 4) k \<and> const_source (3 / 4) k < 1) \<and>
   length (prices (generateMockPriceData (const_source (3 / 4)) ''RELIANCE'' 3
                     (Fin 100) (Fin (1 / 10)))) = 3 \<and>
   prices (generateMockPriceData (const_source (3 / 4)) ''RELIANCE'' 3
             (Fin 100) (Fin (1 / 10))) ! 0 = Fin 100 \<and>
   (0::nat) < 1 \<and> (1::nat) < 3 \<and>
   (\<exists>u p. - (1 / 10) \<le> u \<and> u \<le> 1 / 10 \<and>
      prices (generateMockPriceData (const_source (3 / 4)) ''RELIANCE'' 3
                (Fin 100) (Fin (1 / 10))) ! (1 - 1) = Fin p \<and>
      prices (generateMockPriceData (const_source (3 / 4)) ''RELIANCE'' 3
                (Fin 100) (Fin (1 / 10))) ! 1 = Fin (max (p * (1 + u)) 1)) \<and>
   (\<exists>p. 0 < p \<and>
      prices (generateMockPriceData (const_source (3 / 4)) ''RELIANCE'' 3
                (Fin 100) (Fin (1 / 10))) ! 2 = Fin p)"
proof -
  have h1: "(0::real) < 100" and h2: "(1::nat) \<le> 3" and h3: "(0::real) < 1 / 10"
    by simp_all
  have h4: "\<forall>k. 0 \<le> const_source (3 / 4) k \<and> const_source (3 / 4) k < 1"
    by (simp add: const_source_def)
  have j: "(0::nat) < 1 \<and> (1::nat) < 3" and j2: "(2::nat) < 3"
    by simp_all
  show ?thesis
    using h1 h2 h3 h4 j j2 generated_path_shape [OF h1 h2 h3 h4, of "''RELIANCE''"] by blast
qed

text \<open>With \<open>startPrice = 1/2\<close> the first element stays below the floor of 1, and the second
  element, floored to 1, is twice the first although the volatility is \<open>1/10\<close>.\<close>

theorem unfloored_first_price:
  "prices (generateMockPriceData (const_source (3 / 4)) ''RELIANCE'' 2 (Fin (1 / 2)) (Fin (1 / 10))) =
     [Fin (1 / 2), Fin 1]"
  by (simp add: generateMockPriceData_def gen_loop_unfold gen_loop_done js_index_def
        randomReturn_def js_sub_def js_max_def const_source_def)

text \<open>
  Claim C9, as the code has it. The generator has no parameter for a seed or a randomness
  source: it reads the global \<^verbatim>\<open>Math.random\<close>. Its result is determined by its arguments
  together with the first \<open>numDays - 1\<close> values that \<^verbatim>\<open>Math.random\<close> returns during the call:
  two runs with the same arguments whose draws agree that far return the same prices and
  returns.
\<close>

theorem path_determined_by_draws:
  assumes "\<forall>k. k + 1 < days \<longrightarrow> rnd k = rnd' k"
  shows "generateMockPriceData rnd symbol days startPrice volatility =
         generateMockPriceData rnd' symbol days startPrice volatility"
  unfolding generateMockPriceData_def
  using assms by (intro gen_loop_cong) simp_all

text \<open>Two sources that agree on the first two draws and differ on the third give the same
  three-day path.\<close>

theorem path_determined_by_draws_witness:
  "const_source (1 / 4) 0 = step_source 2 (1 / 4) (3 / 4) 0 \<and>
   const_source (1 / 4) 1 = step_source 2 (1 / 4) (3 / 4) 1 \<and>
   const_source (1 / 4) 2 \<noteq> step_source 2 (1 / 4) (3 / 4) 2 \<and>
   generateMockPriceData (const_source (1 / 4)) ''RELIANCE'' 3 (Fin 100) (Fin (1 / 10)) =
   generateMockPriceData (step_source 2 (1 / 4) (3 / 4)) ''RELIANCE'' 3 (Fin 100) (Fin (1 / 10))"
proof -
  have h: "\<forall>k. k + 1 < 3 \<longrightarrow> const_source (1 / 4) k = step_source 2 (1 / 4) (3 / 4) k"
    by (simp add: const_source_def step_source_def)
  have d: "const_source (1 / 4) 0 = step_source 2 (1 / 4) (3 / 4) 0 \<and>
      const_source (1 / 4) 1 = step_source 2 (1 / 4) (3 / 4) 1 \<and>
      const_source (1 / 4) 2 \<noteq> step_source 2 (1 / 4) (3 / 4) 2"
    by (simp add: const_source_def step_source_def)
  show ?thesis
    using d path_determined_by_draws [OF h] by blast
qed

text \<open>Two runs with the same arguments and different draws return different paths.\<close>

theorem same_arguments_different_paths:
  "prices (generateMockPriceData (const_source 0) ''RELIANCE'' 2 (Fin 100) (Fin (1 / 10))) = [Fin 100, Fin 90] \<and>
   prices (generateMockPriceData (const_source (3 / 4)) ''RELIANCE'' 2 (Fin 100) (Fin (1 / 10))) = [Fin 100, Fin 105]"
  by (simp add: generateMockPriceData_def gen_loop_unfold gen_loop_done js_index_def
        randomReturn_def js_sub_def js_max_def const_source_def)

section \<open>Properties of the pricing function\<close>

text \<open>
  Claim C4. With zero days to expiry the pricing function returns the intrinsic values,
  \<open>callPrice = max (S - K) 0\<close> and \<open>putPrice = max (K - S) 0\<close>; the returned Greeks are
  \<^verbatim>\<open>delta\<close>, \<^verbatim>\<open>gamma\<close>, \<^verbatim>\<open>theta\<close>, \<^verbatim>\<open>vega\<close> and \<^verbatim>\<open>rho\<close>, all zero except \<^verbatim>\<open>delta\<close>, which is
  1 if \<open>S > K\<close> and 0 otherwise. This holds for every finite \<open>S\<close> and \<open>K\<close> and for every rate
  and volatility.
\<close>

theorem expiry_intrinsic_value:
  "callPrice (calculateBlackScholes (Fin S) (Fin K) (Fin 0) r sigma) = Fin (max (S - K) 0) \<and>
   putPrice (calculateBlackScholes (Fin S) (Fin K) (Fin 0) r sigma) = Fin (max (K - S) 0) \<and>
   map_of (greeks (calculateBlackScholes (Fin S) (Fin K) (Fin 0) r sigma)) ''delta'' =
     Some (Fin (if S > K then 1 else 0)) \<and>
   (\<forall>g x. map_of (greeks (calculateBlackScholes (Fin S) (Fin K) (Fin 0) r sigma)) g = Some x \<and>
          g \<noteq> ''delta'' \<longrightarrow> x = Fin 0) \<and>
   map fst (greeks (calculateBlackScholes (Fin S) (Fin K) (Fin 0) r sigma)) =
     [''delta'', ''gamma'', ''theta'', ''vega'', ''rho'']"
  by (simp add: expiry_branch)

text \<open>At the money, \<open>S = K = 100\<close> with rate 0.05 and volatility 0.2: both prices are zero.\<close>

theorem expiry_intrinsic_value_witness:
  "map_of (greeks (calculateBlackScholes (Fin 100) (Fin 100) (Fin 0) (Fin (5 / 100)) (Fin (2 / 10))))
     ''gamma'' = Some (Fin 0) \<and>
   ''gamma'' \<noteq> ''delta'' \<and>
   callPrice (calculateBlackScholes (Fin 100) (Fin 100) (Fin 0) (Fin (5 / 100)) (Fin (2 / 10))) = Fin 0 \<and>
   putPrice (calculateBlackScholes (Fin 100) (Fin 100) (Fin 0) (Fin (5 / 100)) (Fin (2 / 10))) = Fin 0 \<and>
   map_of (greeks (calculateBlackScholes (Fin 100) (Fin 100) (Fin 0) (Fin (5 / 100)) (Fin (2 / 10))))
     ''delta'' = Some (Fin 0)"
proof -
  have h: "map_of (greeks (calculateBlackScholes (Fin 100) (Fin 100) (Fin 0) (Fin (5 / 100)) (Fin (2 / 10))))
      ''gamma'' = Some (Fin 0) \<and> ''gamma'' \<noteq> ''delta''"
    by (simp add: expiry_branch)
  show ?thesis
    using h expiry_intrinsic_value [of 100 100 "Fin (5 / 100)" "Fin (2 / 10)"] by simp
qed

end
